theory Spec2Isabelle
  imports Complex_Main
begin

section \<open>The alert logic of \<open>start_surveillance\<close> (src/anbu.py, lines 93-125)\<close>

text \<open>
  The frame loop of \<open>start_surveillance\<close> keeps two local variables across iterations:
  \<^verbatim>\<open>
    person_detected = False
    last_detection_time = time.time()
  \<close>
  They are the fields of the record below. Timestamps are the values of \<open>time.time()\<close>,
  idealised as real numbers (seconds).
\<close>

record alert_state =
  person_detected :: bool
  last_detection_time :: real

text \<open>The state on entry to the loop; \<open>t0\<close> is the value \<open>time.time()\<close> returned at line 94.\<close>

definition initial_state :: "real \<Rightarrow> alert_state" where
  "initial_state t0 = \<lparr>person_detected = False, last_detection_time = t0\<rparr>"

text \<open>
  One pass through lines 118-125, for a frame whose classification is \<open>person_found\<close> and in
  which \<open>time.time()\<close> returns \<open>now\<close> (each branch reads the clock at most once):
  \<^verbatim>\<open>
    if person_found:
        if not person_detected:
            person_detected = True
            last_detection_time = time.time()
            Thread(target=send_email, args=(...)).start()
    else:
        if time.time() - last_detection_time > 60:
            person_detected = False
  \<close>
  The literal \<open>60\<close> of the source is the parameter \<open>cooldown\<close>; the program is the instance
  \<open>cooldown = cooldown_seconds\<close>. The second component of the result tells whether the
  notification thread was started in this pass.
\<close>

definition cooldown_seconds :: real where
  "cooldown_seconds = 60"

definition handle_detection :: "real \<Rightarrow> alert_state \<Rightarrow> bool \<Rightarrow> real \<Rightarrow> alert_state \<times> bool" where
  "handle_detection cooldown st person_found now =
     (if person_found then
        (if \<not> person_detected st
         then (st\<lparr>person_detected := True, last_detection_time := now\<rparr>, True)
         else (st, False))
      else
        (if now - last_detection_time st > cooldown
         then (st\<lparr>person_detected := False\<rparr>, False)
         else (st, False)))"

text \<open>
  The loop over the frames that were read before the loop was left: each frame is its
  classification and its clock reading. The result is the list of clock readings at which a
  notification thread was started, in order.
\<close>

fun alerts :: "real \<Rightarrow> alert_state \<Rightarrow> (bool \<times> real) list \<Rightarrow> real list" where
  "alerts cooldown st [] = []"
| "alerts cooldown st ((person_found, now) # frames) =
     (if snd (handle_detection cooldown st person_found now) then [now] else [])
       @ alerts cooldown (fst (handle_detection cooldown st person_found now)) frames"

text \<open>The trace \<open>[T,T,T,F,F,T,T]\<close> with one frame per \<open>step\<close> seconds, starting at \<open>0\<close>.\<close>

definition trace7 :: "real \<Rightarrow> (bool \<times> real) list" where
  "trace7 step = [(True, 0), (True, step), (True, 2 * step), (False, 3 * step),
                  (False, 4 * step), (True, 5 * step), (True, 6 * step)]"

text \<open>The program itself: the loop entered at clock reading \<open>t0\<close>, with the source's constant.\<close>

definition start_surveillance_alerts :: "real \<Rightarrow> (bool \<times> real) list \<Rightarrow> real list" where
  "start_surveillance_alerts t0 frames = alerts cooldown_seconds (initial_state t0) frames"

text \<open>The two variables after the loop has processed \<open>frames\<close>.\<close>

definition final_state :: "real \<Rightarrow> alert_state \<Rightarrow> (bool \<times> real) list \<Rightarrow> alert_state" where
  "final_state cooldown st frames =
     foldl (\<lambda>s (person_found, now). fst (handle_detection cooldown s person_found now))
       st frames"

subsection \<open>The transition function as section 4.4 of the specification words it\<close>

text \<open>
  For comparison only, and not taken from the source: the specification's transition
  function, which refreshes the timestamp on every frame with a person while alerted.
\<close>

definition spec_step :: "real \<Rightarrow> alert_state \<Rightarrow> bool \<Rightarrow> real \<Rightarrow> alert_state \<times> bool" where
  "spec_step cooldown st signal now =
     (if \<not> person_detected st then
        (if signal
         then (st\<lparr>person_detected := True, last_detection_time := now\<rparr>, True)
         else (st, False))
      else
        (if signal then (st\<lparr>last_detection_time := now\<rparr>, False)
         else if now - last_detection_time st > cooldown
              then (st\<lparr>person_detected := False\<rparr>, False)
              else (st, False)))"

fun spec_alerts :: "real \<Rightarrow> alert_state \<Rightarrow> (bool \<times> real) list \<Rightarrow> real list" where
  "spec_alerts cooldown st [] = []"
| "spec_alerts cooldown st ((signal, now) # frames) =
     (if snd (spec_step cooldown st signal now) then [now] else [])
       @ spec_alerts cooldown (fst (spec_step cooldown st signal now)) frames"

subsection \<open>Episodes of the source's loop, described frame by frame\<close>

text \<open>
  A description of the notifications that does not mention the two variables: skip the
  frames without a person; the first frame with a person starts an episode at its clock
  reading \<open>start\<close>; the episode lasts until the first later frame that has no person and
  whose clock reading exceeds \<open>start\<close> by more than the cooldown; then the same again.
\<close>

function episode_starts :: "real \<Rightarrow> (bool \<times> real) list \<Rightarrow> real list" where
  "episode_starts cooldown frames =
     (case dropWhile (\<lambda>(found, now). \<not> found) frames of
        [] \<Rightarrow> []
      | (found, start) # rest \<Rightarrow>
          start # episode_starts cooldown
                    (dropWhile (\<lambda>(found, now). found \<or> \<not> now - start > cooldown) rest))"
  by pat_completeness auto
termination
proof (relation "measure (\<lambda>(cooldown, frames). length frames)")
  show "wf (measure (\<lambda>(cooldown, frames). length frames))"
    by simp
next
  fix cooldown :: real and frames :: "(bool \<times> real) list" and x rest found start
  assume eq: "dropWhile (\<lambda>(found, now). \<not> found) frames = x # rest"
  have "length (dropWhile (\<lambda>(found, now). found \<or> \<not> now - start > cooldown) rest)
          \<le> length rest"
    by (rule length_dropWhile_le)
  also have "length rest < length (x # rest)"
    by simp
  also have "length (x # rest) \<le> length frames"
    unfolding eq [symmetric] by (rule length_dropWhile_le)
  finally show "((cooldown,
                  dropWhile (\<lambda>(found, now). found \<or> \<not> now - start > cooldown) rest),
                 (cooldown, frames))
                \<in> measure (\<lambda>(cooldown, frames). length frames)"
    by simp
qed

subsection \<open>Comparing two cooldowns on the same frames\<close>

text \<open>
  \<open>lag a b\<close> bounds by how many notifications a loop in state \<open>b\<close> can get ahead of a loop
  in state \<open>a\<close> with a shorter cooldown: by none when \<open>a\<close> is idle, or when both are alerted
  and \<open>b\<close>'s episode started no earlier than \<open>a\<close>'s; by one otherwise.
\<close>

definition lag :: "alert_state \<Rightarrow> alert_state \<Rightarrow> nat" where
  "lag a b =
     (if \<not> person_detected a
         \<or> (person_detected b \<and> last_detection_time a \<le> last_detection_time b)
      then 0 else 1)"

section \<open>The per-frame classification (src/anbu.py, lines 102-115)\<close>

text \<open>
  One entry of \<open>results.boxes\<close>, after the conversions of lines 106-108: the corner
  coordinates, the confidence and the class index.
\<close>

record box =
  xyxy :: "int \<times> int \<times> int \<times> int"
  conf :: real
  cls :: int

datatype py_error = KeyError | ValueError

text \<open>
  \<^verbatim>\<open>
    person_found = False
    for box in results.boxes:
        ...
        label = f"{model.names[cls]} {conf:.2f}"
        ...
        if model.names[cls] == 'person':
            person_found = True
  \<close>
  \<open>model.names\<close> is a dictionary from class indices to labels; looking up a missing index
  raises \<open>KeyError\<close>. Drawing on the frame does not influence the flag and is left out.
\<close>

fun person_found_loop :: "(int \<rightharpoonup> string) \<Rightarrow> box list \<Rightarrow> bool \<Rightarrow> py_error + bool" where
  "person_found_loop names [] person_found = Inr person_found"
| "person_found_loop names (b # boxes) person_found =
     (case names (cls b) of
        None \<Rightarrow> Inl KeyError
      | Some name \<Rightarrow>
          person_found_loop names boxes (if name = ''person'' then True else person_found))"

definition person_found_of :: "(int \<rightharpoonup> string) \<Rightarrow> box list \<Rightarrow> py_error + bool" where
  "person_found_of names boxes = person_found_loop names boxes False"

text \<open>
  For comparison only, and not taken from the source: the classifier as section 4.3 of the
  specification words it, with a target label and a minimum confidence.
\<close>

definition classify_spec :: "(int \<rightharpoonup> string) \<Rightarrow> box list \<Rightarrow> string \<Rightarrow> real \<Rightarrow> bool" where
  "classify_spec names boxes targetLabel minConfidence =
     list_ex (\<lambda>b. names (cls b) = Some targetLabel \<and> conf b \<ge> minConfidence) boxes"

section \<open>Camera enumeration and selection (src/anbu.py, lines 33-63)\<close>

text \<open>Python's \<open>str\<close> on a non-negative integer: its decimal digits, most significant first.\<close>

definition digit_char :: "nat \<Rightarrow> char" where
  "digit_char d = ''0123456789'' ! d"

fun str :: "nat \<Rightarrow> string" where
  "str n = (if n < 10 then [digit_char n] else str (n div 10) @ [digit_char (n mod 10)])"

declare str.simps [simp del]

text \<open>
  Python's \<open>int\<close> on a string, restricted to what the selection can hold: a non-empty string
  of ASCII decimal digits is read as a number; every other string is modelled as the
  \<open>ValueError\<close> that \<open>int\<close> raises on a string that is not a number.
\<close>

definition digit_of_char :: "char \<Rightarrow> nat option" where
  "digit_of_char c = map_of (zip ''0123456789'' [0, 1, 2, 3, 4, 5, 6, 7, 8, 9]) c"

fun int_digits :: "string \<Rightarrow> nat \<Rightarrow> nat option" where
  "int_digits [] acc = Some acc"
| "int_digits (c # cs) acc =
     (case digit_of_char c of
        None \<Rightarrow> None
      | Some d \<Rightarrow> int_digits cs (10 * acc + d))"

definition int_py :: "string \<Rightarrow> py_error + int" where
  "int_py s =
     (if s = [] then Inl ValueError
      else case int_digits s 0 of
             None \<Rightarrow> Inl ValueError
           | Some n \<Rightarrow> Inr (int n))"

text \<open>
  \<^verbatim>\<open>
    def detect_available_cameras(max_cameras=5):
        available_cameras = []
        for i in range(max_cameras):
            cap = cv2.VideoCapture(i)
            if cap.isOpened():
                available_cameras.append(str(i))
                cap.release()
        return available_cameras
  \<close>
  \<open>cv2.VideoCapture(i)\<close> does not raise when a device cannot be opened: it returns a
  capture object whose \<open>isOpened()\<close> is false. The probe is therefore the parameter
  \<open>isOpened\<close>, the outcome of opening device \<open>i\<close>. \<open>range\<close> of a negative number is empty.
\<close>

definition range_py :: "int \<Rightarrow> nat list" where
  "range_py n = [0..<nat n]"

fun detect_loop :: "(nat \<Rightarrow> bool) \<Rightarrow> nat list \<Rightarrow> string list \<Rightarrow> string list" where
  "detect_loop isOpened [] available_cameras = available_cameras"
| "detect_loop isOpened (i # indices) available_cameras =
     detect_loop isOpened indices
       (if isOpened i then available_cameras @ [str i] else available_cameras)"

definition detect_available_cameras :: "(nat \<Rightarrow> bool) \<Rightarrow> int \<Rightarrow> string list" where
  "detect_available_cameras isOpened max_cameras =
     detect_loop isOpened (range_py max_cameras) []"

text \<open>
  \<^verbatim>\<open>
    def get_camera_selection(root):
        available_cameras = detect_available_cameras()
        if not available_cameras:
            messagebox.showerror("Camera Error", "No available cameras found.")
            return None
        camera_selection = StringVar(root)
        camera_selection.set(available_cameras[0])  # Default selection
        ...
        OptionMenu(popup, camera_selection, *available_cameras).pack(pady=5)
        ...
        root.wait_window(popup)  # Wait for user to make selection
        return int(camera_selection.get())
  \<close>
  The operator's interaction with the menu is the list \<open>clicks\<close> of the menu entries chosen
  before the window is closed, each the position of an entry; the menu offers no other
  entry, so a position outside it changes nothing. The result is \<open>None\<close> when the function
  returns \<open>None\<close>.
\<close>

definition option_menu :: "string list \<Rightarrow> nat list \<Rightarrow> string \<Rightarrow> string" where
  "option_menu entries clicks default_value =
     foldl (\<lambda>v k. if k < length entries then entries ! k else v) default_value clicks"

definition get_camera_selection :: "(nat \<Rightarrow> bool) \<Rightarrow> nat list \<Rightarrow> py_error + int option" where
  "get_camera_selection isOpened clicks =
     (let available_cameras = detect_available_cameras isOpened 5 in
      case available_cameras of
        [] \<Rightarrow> Inr None
      | first # _ \<Rightarrow>
          (case int_py (option_menu available_cameras clicks first) of
             Inl e \<Rightarrow> Inl e
           | Inr n \<Rightarrow> Inr (Some n)))"

section \<open>The notification (src/anbu.py, lines 14-31)\<close>

text \<open>
  \<^verbatim>\<open>
    def send_email(sender_email, sender_password, receiver_email):
        try:
            server = smtplib.SMTP("smtp.gmail.com", 587)
            server.starttls()
            server.login(sender_email, sender_password)
            msg = MIMEMultipart()
            msg['From'] = sender_email
            msg['To'] = receiver_email
            msg['Subject'] = "... Intruder Alert!"
            msg.attach(MIMEText("A person has been detected ...", "plain"))
            server.sendmail(sender_email, receiver_email, msg.as_string())
            server.quit()
            print("... Email notification sent!")
        except Exception as e:
            print(f"... Failed to send email: {e}")
  \<close>
  A call to \<open>smtplib\<close> is a value of \<open>smtp_call\<close> with its arguments. What a statement raises
  is either an instance of \<open>Exception\<close> (as every error of \<open>smtplib\<close>, of the socket layer,
  of the \<open>email\<close> package and of an encoder is), carrying its text, or an exception outside
  \<open>Exception\<close> such as \<open>KeyboardInterrupt\<close>, which the handler of line 30 does not catch.
\<close>

datatype smtp_call =
    SMTP string nat
  | Starttls
  | Login string string
  | Sendmail string string string
  | Quit

datatype raised = Exception string | KeyboardInterrupt | SystemExit

datatype outcome = Returns | Raises raised


text \<open>
  What lies outside the function: the transport, which answers each call by returning or
  raising; the \<open>email\<close> package, which for the two addresses either yields the text of the
  message or raises while lines 21-25 build it or \<open>msg.as_string()\<close> serialises it (as it
  does for an address that contains a line break); and the standard output, which either
  accepts a line or raises, as \<open>print\<close> does with \<open>UnicodeEncodeError\<close> when the encoding of
  the output cannot represent a character of the line.
\<close>

record environment =
  transport :: "smtp_call \<Rightarrow> outcome"
  as_string :: "string \<Rightarrow> string \<Rightarrow> raised + string"
  stdout_write :: "string \<Rightarrow> outcome"

text \<open>What the function has done: the calls made, in order, and the lines printed.\<close>

record io_log =
  calls :: "smtp_call list"
  printed :: "string list"

text \<open>
  A statement takes the log and gives back either what it raised or its value, with the
  log as it is then; \<open>then_do\<close> runs the rest only when the statement did not raise.
\<close>

type_synonym 'a action = "io_log \<Rightarrow> (raised + 'a) \<times> io_log"

definition then_do :: "'a action \<Rightarrow> ('a \<Rightarrow> 'b action) \<Rightarrow> 'b action" where
  "then_do m f io = (case m io of (Inl e, io') \<Rightarrow> (Inl e, io') | (Inr x, io') \<Rightarrow> f x io')"

definition call :: "environment \<Rightarrow> smtp_call \<Rightarrow> unit action" where
  "call env c io =
     (case transport env c of
        Returns \<Rightarrow> (Inr (), io\<lparr>calls := calls io @ [c]\<rparr>)
      | Raises e \<Rightarrow> (Inl e, io\<lparr>calls := calls io @ [c]\<rparr>))"

definition build_message :: "environment \<Rightarrow> string \<Rightarrow> string \<Rightarrow> string action" where
  "build_message env sender_email receiver_email io = (as_string env sender_email receiver_email, io)"

definition print_line :: "environment \<Rightarrow> string \<Rightarrow> unit action" where
  "print_line env line io =
     (case stdout_write env line of
        Returns \<Rightarrow> (Inr (), io\<lparr>printed := printed io @ [line]\<rparr>)
      | Raises e \<Rightarrow> (Inl e, io))"

text \<open>
  The two printed lines. Each begins with a symbol outside ASCII, here as the three bytes
  of its UTF-8 encoding (U+2705 and U+274C).
\<close>

definition success_line :: string where
  "success_line = [CHR 0xE2, CHR 0x9C, CHR 0x85] @ '' Email notification sent!''"

definition failure_line :: "string \<Rightarrow> string" where
  "failure_line e = [CHR 0xE2, CHR 0x9D, CHR 0x8C] @ '' Failed to send email: '' @ e"

text \<open>
  The body of the \<open>try\<close>, lines 17-29, statement by statement; the message is built after
  the login and before \<open>sendmail\<close> is called, and the success line is printed inside the
  \<open>try\<close>.
\<close>

definition try_block :: "environment \<Rightarrow> string \<Rightarrow> string \<Rightarrow> string \<Rightarrow> unit action" where
  "try_block env sender_email sender_password receiver_email =
     then_do (call env (SMTP ''smtp.gmail.com'' 587)) (\<lambda>_.
     then_do (call env Starttls) (\<lambda>_.
     then_do (call env (Login sender_email sender_password)) (\<lambda>_.
     then_do (build_message env sender_email receiver_email) (\<lambda>body.
     then_do (call env (Sendmail sender_email receiver_email body)) (\<lambda>_.
     then_do (call env Quit) (\<lambda>_.
     print_line env success_line))))))"

text \<open>
  The whole function: \<open>Inr ()\<close> is a normal return, \<open>Inl e\<close> is \<open>e\<close> leaving \<open>send_email\<close>.
  The handler catches instances of \<open>Exception\<close> only, and its own \<open>print\<close> is not protected.
\<close>

definition send_email :: "environment \<Rightarrow> string \<Rightarrow> string \<Rightarrow> string \<Rightarrow> (raised + unit) \<times> io_log" where
  "send_email env sender_email sender_password receiver_email =
     (case try_block env sender_email sender_password receiver_email \<lparr>calls = [], printed = []\<rparr> of
        (Inr u, io) \<Rightarrow> (Inr u, io)
      | (Inl (Exception e), io) \<Rightarrow> print_line env (failure_line e) io
      | (Inl other, io) \<Rightarrow> (Inl other, io))"



definition utf8_stdout :: "string \<Rightarrow> outcome" where
  "utf8_stdout line = Returns"


definition plain_message :: "string \<Rightarrow> string \<Rightarrow> raised + string" where
  "plain_message sender_email receiver_email =
     (if CHR 0x0A \<in> set receiver_email then Inl (Exception ''HeaderParseError'')
      else Inr (''From: '' @ sender_email @ '' To: '' @ receiver_email))"

section \<open>Properties of the alert logic\<close>

lemma handle_detection_idle_false:
  "\<not> person_detected st \<Longrightarrow> handle_detection cooldown st False now = (st, False)"
  by (simp add: handle_detection_def)

lemma handle_detection_alerted_true:
  "person_detected st \<Longrightarrow> handle_detection cooldown st True now = (st, False)"
  by (simp add: handle_detection_def)

lemma handle_detection_idle_true:
  "\<not> person_detected st \<Longrightarrow>
     handle_detection cooldown st True now
       = (st\<lparr>person_detected := True, last_detection_time := now\<rparr>, True)"
  by (simp add: handle_detection_def)

lemma handle_detection_false:
  "handle_detection cooldown st False now
     = (if now - last_detection_time st > cooldown then st\<lparr>person_detected := False\<rparr> else st,
        False)"
  by (simp add: handle_detection_def)

lemma alerts_alerted_all_true:
  "person_detected st \<Longrightarrow> alerts cooldown st (map (Pair True) readings) = []"
  by (induction readings) (simp_all add: handle_detection_alerted_true)

lemma alerts_all_true_le_1:
  "length (alerts cooldown st (map (Pair True) readings)) \<le> 1"
proof (cases readings)
  case Nil
  then show ?thesis by simp
next
  case (Cons t ts)
  show ?thesis
  proof (cases "person_detected st")
    case True
    then show ?thesis by (simp add: alerts_alerted_all_true)
  next
    case False
    then show ?thesis
      by (simp add: Cons handle_detection_idle_true alerts_alerted_all_true)
  qed
qed

lemma episode_starts_Nil: "episode_starts cooldown [] = []"
  by (subst episode_starts.simps) simp

lemma episode_starts_Cons:
  "episode_starts cooldown ((found, now) # frames) =
     (if found
      then now # episode_starts cooldown
                   (dropWhile (\<lambda>(found, t). found \<or> \<not> t - now > cooldown) frames)
      else episode_starts cooldown frames)"
proof (cases found)
  case True
  then show ?thesis by (subst episode_starts.simps) simp
next
  case False
  have "episode_starts cooldown ((found, now) # frames)
        = (case dropWhile (\<lambda>(found, now). \<not> found) frames of
             [] \<Rightarrow> []
           | (found, start) # rest \<Rightarrow>
               start # episode_starts cooldown
                 (dropWhile (\<lambda>(found, now). found \<or> \<not> now - start > cooldown) rest))"
    using False by (subst episode_starts.simps) simp
  also have "\<dots> = episode_starts cooldown frames"
    by (subst (2) episode_starts.simps) simp
  finally show ?thesis using False by simp
qed

lemma alerts_episodes_general:
  "(\<not> person_detected st \<longrightarrow> alerts cooldown st frames = episode_starts cooldown frames)
   \<and> (person_detected st \<longrightarrow>
        alerts cooldown st frames
          = episode_starts cooldown
              (dropWhile (\<lambda>(found, t). found \<or> \<not> t - last_detection_time st > cooldown)
                 frames))"
proof (induction frames arbitrary: st)
  case Nil
  show ?case by (simp add: episode_starts_Nil)
next
  case (Cons frame frames)
  obtain found now where frame: "frame = (found, now)"
    by (cases frame)
  show ?case
  proof (cases found)
    case True
    show ?thesis
    proof (cases "person_detected st")
      case alerted: True
      with True Cons.IH [of st] show ?thesis
        by (simp add: frame handle_detection_alerted_true)
    next
      case idle: False
      with True Cons.IH [of "st\<lparr>person_detected := True, last_detection_time := now\<rparr>"]
      show ?thesis
        by (simp add: frame handle_detection_idle_true episode_starts_Cons)
    qed
  next
    case False
    show ?thesis
    proof (cases "now - last_detection_time st > cooldown")
      case expired: True
      with False Cons.IH [of "st\<lparr>person_detected := False\<rparr>"] show ?thesis
        by (simp add: frame handle_detection_false episode_starts_Cons)
    next
      case fresh: False
      with False Cons.IH [of st] show ?thesis
        by (simp add: frame handle_detection_false episode_starts_Cons)
    qed
  qed
qed

lemma alerts_mono_general:
  assumes le: "cd \<le> cd'"
  shows "sorted (map snd frames) \<Longrightarrow>
         (person_detected a \<longrightarrow> (\<forall>t \<in> set (map snd frames). last_detection_time a \<le> t)) \<Longrightarrow>
         length (alerts cd' b frames) \<le> length (alerts cd a frames) + lag a b"
proof (induction frames arbitrary: a b)
  case Nil
  show ?case by simp
next
  case (Cons frame frames)
  obtain found now where frame: "frame = (found, now)"
    by (cases frame)
  define a' where "a' = fst (handle_detection cd a found now)"
  define b' where "b' = fst (handle_detection cd' b found now)"
  define ea where "ea = (if snd (handle_detection cd a found now) then 1 else 0 :: nat)"
  define eb where "eb = (if snd (handle_detection cd' b found now) then 1 else 0 :: nat)"
  have sorted_rest: "sorted (map snd frames)"
    using Cons.prems(1) by simp
  have now_le: "\<forall>t \<in> set (map snd frames). now \<le> t"
    using Cons.prems(1) by (simp add: frame)
  have a_le_now: "person_detected a \<longrightarrow> last_detection_time a \<le> now"
    using Cons.prems(2) by (simp add: frame)
  have inv: "person_detected a' \<longrightarrow> (\<forall>t \<in> set (map snd frames). last_detection_time a' \<le> t)"
    using Cons.prems(2) now_le
    by (auto simp: a'_def frame handle_detection_def)
  have IH: "length (alerts cd' b' frames) \<le> length (alerts cd a' frames) + lag a' b'"
    by (rule Cons.IH [OF sorted_rest inv])
  have pot: "eb + lag a' b' \<le> ea + lag a b"
    using le a_le_now
    by (auto simp: a'_def b'_def ea_def eb_def lag_def handle_detection_def)
  have "length (alerts cd' b (frame # frames)) = eb + length (alerts cd' b' frames)"
    by (simp add: frame eb_def b'_def)
  moreover have "length (alerts cd a (frame # frames)) = ea + length (alerts cd a' frames)"
    by (simp add: frame ea_def a'_def)
  ultimately show ?case
    using IH pot by linarith
qed

lemma final_state_Nil: "final_state cooldown st [] = st"
  by (simp add: final_state_def)

lemma final_state_Cons:
  "final_state cooldown st ((person_found, now) # frames)
     = final_state cooldown (fst (handle_detection cooldown st person_found now)) frames"
  by (simp add: final_state_def)

lemma final_state_alerted_all_true:
  "person_detected st \<Longrightarrow> final_state cooldown st (map (Pair True) readings) = st"
  by (induction readings) (simp_all add: final_state_Nil final_state_Cons handle_detection_alerted_true)

subsection \<open>Episodes\<close>

text \<open>
  Claim C1, as stated, with the episodes of section 4.4 of the specification (a frame
  without a person ends the episode when it comes more than the cooldown after the most
  recent frame with a person): the frames \<open>T@0, T@100, F@101, T@102\<close> are one such episode
  for a cooldown of 60 seconds, the gap being one second long, and the specification's
  transition function raises one alert on them; the program starts two notifications, at
  \<open>0\<close> and at \<open>102\<close>.
\<close>

theorem one_alert_per_run_counterexample:
  "start_surveillance_alerts 0 [(True, 0), (True, 100), (False, 101), (True, 102)] = [0, 102]
   \<and> spec_alerts 60 (initial_state 0) [(True, 0), (True, 100), (False, 101), (True, 102)] = [0]"
  by (simp add: start_surveillance_alerts_def cooldown_seconds_def initial_state_def
      handle_detection_def spec_step_def)

text \<open>
  Claim C1, amended. For every finite sequence of frames the loop starts exactly one
  notification per episode, where an episode begins at the first frame with a person
  while idle and ends at the first later frame without a person whose clock reading is
  more than the cooldown after the beginning of the episode; the next frame with a person
  then begins a new episode with a new notification.
\<close>

theorem alerts_are_episode_starts:
  "alerts cooldown (initial_state t0) frames = episode_starts cooldown frames"
  using alerts_episodes_general [of "initial_state t0" cooldown frames]
  by (simp add: initial_state_def)

subsection \<open>The scenario of seven frames\<close>

text \<open>
  Claim C2, as stated: on \<open>[T,T,T,F,F,T,T]\<close> at one-second intervals with a cooldown of 2
  the loop does not start exactly one notification. The same holds for the program with
  its own cooldown of 60 when the frames are 30 seconds apart.
\<close>

theorem trace7_cooldown2_counterexample:
  "length (alerts 2 (initial_state 0) (trace7 1)) \<noteq> 1
   \<and> length (start_surveillance_alerts 0 (trace7 30)) \<noteq> 1"
  by (simp add: start_surveillance_alerts_def cooldown_seconds_def trace7_def
      initial_state_def handle_detection_def)

text \<open>
  Claim C2, amended. On \<open>[T,T,T,F,F,T,T]\<close> at one-second intervals starting at \<open>0\<close> the loop
  starts exactly two notifications, at \<open>0\<close> and at \<open>5\<close>, with a cooldown of 2 as well as with
  a cooldown of 1: the frame without a person at \<open>3\<close> comes more than the cooldown after
  the beginning of the episode at \<open>0\<close>.
\<close>

theorem trace7_two_alerts:
  "alerts 2 (initial_state t0) (trace7 1) = [0, 5]
   \<and> alerts 1 (initial_state t0) (trace7 1) = [0, 5]"
  by (simp add: trace7_def initial_state_def handle_detection_def)

subsection \<open>Steps in the alerted state\<close>

text \<open>
  Claim C3, as stated: a step in the alerted state with a person at \<open>now = 5\<close> does not set
  \<open>last_detection_time\<close> to \<open>5\<close>; and after frames with a person at \<open>0\<close> and at \<open>100\<close>, a frame
  without a person at \<open>101\<close> returns the loop to idle although only one second has passed
  since the most recent frame with a person.
\<close>

theorem alerted_true_refreshes_counterexample:
  "last_detection_time
     (fst (handle_detection 60 \<lparr>person_detected = True, last_detection_time = 0\<rparr> True 5)) = 0
   \<and> \<not> person_detected
         (final_state 60 (initial_state 0) [(True, 0), (True, 100), (False, 101)])
   \<and> \<not> (101 - 100 > (60 :: real))"
  by (simp add: final_state_def initial_state_def handle_detection_def)

text \<open>
  Claim C3, amended. A step in the alerted state with a person leaves both variables as
  they are, so \<open>last_detection_time\<close> keeps the clock reading of the frame that began the
  episode, and starts no notification; a step in the alerted state without a person
  starts no notification, keeps \<open>last_detection_time\<close>, and returns to idle exactly when
  \<open>now\<close> minus that clock reading exceeds the cooldown.
\<close>

theorem alerted_step:
  assumes "person_detected st"
  shows "handle_detection cooldown st True now = (st, False)
       \<and> handle_detection cooldown st False now
           = (st\<lparr>person_detected := \<not> now - last_detection_time st > cooldown\<rparr>, False)
       \<and> final_state cooldown (st\<lparr>person_detected := False\<rparr>)
             ((True, start) # map (Pair True) readings)
           = st\<lparr>person_detected := True, last_detection_time := start\<rparr>"
proof -
  have "handle_detection cooldown st False now
          = (st\<lparr>person_detected := \<not> now - last_detection_time st > cooldown\<rparr>, False)"
    using assms by (simp add: handle_detection_false)
  moreover have "final_state cooldown (st\<lparr>person_detected := False\<rparr>)
                   ((True, start) # map (Pair True) readings)
                 = st\<lparr>person_detected := True, last_detection_time := start\<rparr>"
    by (simp add: final_state_Cons handle_detection_idle_true final_state_alerted_all_true)
  ultimately show ?thesis
    using assms by (simp add: handle_detection_alerted_true)
qed

theorem alerted_step_witness:
  "person_detected \<lparr>person_detected = True, last_detection_time = 0\<rparr>
   \<and> handle_detection 60 \<lparr>person_detected = True, last_detection_time = 0\<rparr> True 100
       = (\<lparr>person_detected = True, last_detection_time = 0\<rparr>, False)
   \<and> handle_detection 60 \<lparr>person_detected = True, last_detection_time = 0\<rparr> False 101
       = (\<lparr>person_detected = False, last_detection_time = 0\<rparr>, False)
   \<and> final_state 60 \<lparr>person_detected = False, last_detection_time = 0\<rparr>
         [(True, 7), (True, 8), (True, 9)]
       = \<lparr>person_detected = True, last_detection_time = 7\<rparr>"
proof -
  have h: "person_detected \<lparr>person_detected = True, last_detection_time = 0\<rparr>"
    by simp
  show ?thesis
    using h alerted_step [OF h, of 60 100] alerted_step [OF h, of 60 101 7 "[8, 9]"]
    by simp
qed

subsection \<open>Continuous presence\<close>

text \<open>
  Claim C4. Over frames that all show a person the loop starts at most one notification,
  whatever the state before them; once the loop is alerted, a frame with a person starts
  none and leaves it alerted, so a further notification needs a return to idle first; and
  a step that starts a notification is a step from idle on a frame with a person.
\<close>

theorem continuous_presence_one_alert:
  "length (alerts cooldown st (map (Pair True) readings)) \<le> 1
   \<and> (person_detected st \<longrightarrow>
        alerts cooldown st (map (Pair True) readings) = []
        \<and> final_state cooldown st (map (Pair True) readings) = st)
   \<and> (snd (handle_detection cooldown st person_found now) \<longrightarrow>
        person_found \<and> \<not> person_detected st)"
proof (intro conjI impI)
  show "length (alerts cooldown st (map (Pair True) readings)) \<le> 1"
    by (rule alerts_all_true_le_1)
next
  assume "person_detected st"
  then show "alerts cooldown st (map (Pair True) readings) = []"
    by (rule alerts_alerted_all_true)
next
  assume "person_detected st"
  then show "final_state cooldown st (map (Pair True) readings) = st"
    by (rule final_state_alerted_all_true)
next
  assume "snd (handle_detection cooldown st person_found now)"
  then show person_found
    by (simp add: handle_detection_def split: if_splits)
next
  assume "snd (handle_detection cooldown st person_found now)"
  then show "\<not> person_detected st"
    by (simp add: handle_detection_def split: if_splits)
qed

theorem continuous_presence_one_alert_witness:
  "length (alerts 60 (initial_state 0) (map (Pair True) [1, 2, 3])) \<le> 1
   \<and> person_detected \<lparr>person_detected = True, last_detection_time = 1\<rparr>
   \<and> alerts 60 \<lparr>person_detected = True, last_detection_time = 1\<rparr> (map (Pair True) [2, 3]) = []
   \<and> final_state 60 \<lparr>person_detected = True, last_detection_time = 1\<rparr> (map (Pair True) [2, 3])
       = \<lparr>person_detected = True, last_detection_time = 1\<rparr>
   \<and> snd (handle_detection 60 (initial_state 0) True 1)"
proof -
  have "snd (handle_detection 60 (initial_state 0) True 1)"
    by (simp add: handle_detection_def initial_state_def)
  then show ?thesis
    using continuous_presence_one_alert [of 60 "initial_state 0" "[1, 2, 3]" True 1]
      continuous_presence_one_alert
        [of 60 "\<lparr>person_detected = True, last_detection_time = 1\<rparr>" "[2, 3]" True 1]
    by simp
qed

subsection \<open>Longer cooldowns\<close>

text \<open>
  Claim C8, as stated: the clock readings are those of \<open>time.time()\<close>, the wall clock, which
  can be set back while the loop runs. On the frames \<open>T@0, F@60, T@3000, F@1500, T@1530,
  F@1800, T@1830\<close> a cooldown of 30 gives two notifications and the program's own cooldown
  of 60 gives three.
\<close>

theorem longer_cooldown_more_alerts_counterexample:
  "(30 :: real) \<le> cooldown_seconds
   \<and> length (alerts 30 (initial_state 0)
        [(True, 0), (False, 60), (True, 3000), (False, 1500), (True, 1530), (False, 1800),
         (True, 1830)]) = 2
   \<and> length (start_surveillance_alerts 0
        [(True, 0), (False, 60), (True, 3000), (False, 1500), (True, 1530), (False, 1800),
         (True, 1830)]) = 3"
  by (simp add: start_surveillance_alerts_def cooldown_seconds_def initial_state_def
      handle_detection_def)

text \<open>
  Claim C8, amended. For every sequence of frames whose clock readings do not decrease, a
  longer cooldown never gives more notifications: the number of notifications is a
  non-increasing function of the cooldown.
\<close>

theorem alerts_mono:
  assumes "cd \<le> cd'" and "sorted (map snd frames)"
  shows "length (alerts cd' (initial_state t0) frames)
           \<le> length (alerts cd (initial_state t0) frames)"
  using alerts_mono_general [OF assms(1) assms(2), of "initial_state t0" "initial_state t0"]
  by (simp add: lag_def initial_state_def)

theorem alerts_mono_witness:
  "(1 :: real) \<le> 5 \<and> sorted (map snd [(True, 0 :: real), (False, 2), (True, 3)])
   \<and> length (alerts 5 (initial_state 0) [(True, 0), (False, 2), (True, 3)])
       \<le> length (alerts 1 (initial_state 0) [(True, 0), (False, 2), (True, 3)])
   \<and> length (alerts 5 (initial_state 0) [(True, 0), (False, 2), (True, 3)]) = 1
   \<and> length (alerts 1 (initial_state 0) [(True, 0), (False, 2), (True, 3)]) = 2"
proof -
  have h1: "(1 :: real) \<le> 5"
    by simp
  have h2: "sorted (map snd [(True, 0 :: real), (False, 2), (True, 3)])"
    by simp
  have "length (alerts 5 (initial_state 0) [(True, 0), (False, 2), (True, 3)]) = 1"
    by (simp add: initial_state_def handle_detection_def)
  moreover have "length (alerts 1 (initial_state 0) [(True, 0), (False, 2), (True, 3)]) = 2"
    by (simp add: initial_state_def handle_detection_def)
  ultimately show ?thesis
    using h1 h2 alerts_mono [OF h1 h2, of 0] by simp
qed

subsection \<open>Idle frames\<close>

text \<open>
  Claim C9. In the idle state (\<open>person_detected = False\<close>) a frame without a person leaves both
  \<open>person_detected\<close> and \<open>last_detection_time\<close> as they were and starts no notification, and so
  does feeding the same frame and clock reading a second time.
\<close>

theorem idle_false_idempotent:
  assumes "\<not> person_detected st"
  shows "handle_detection cooldown st False now = (st, False)
       \<and> handle_detection cooldown (fst (handle_detection cooldown st False now)) False now
           = (st, False)"
  using assms by (simp add: handle_detection_idle_false)

theorem idle_false_idempotent_witness:
  "\<not> person_detected (initial_state 0)
   \<and> handle_detection 60 (initial_state 0) False 100 = (initial_state 0, False)
   \<and> handle_detection 60 (fst (handle_detection 60 (initial_state 0) False 100)) False 100
       = (initial_state 0, False)"
proof -
  have h: "\<not> person_detected (initial_state 0)"
    by (simp add: initial_state_def)
  show ?thesis
    using h idle_false_idempotent [OF h, of 60 100] by simp
qed

section \<open>Properties of the classification\<close>

lemma person_found_loop_eq:
  "\<forall>b \<in> set boxes. cls b \<in> dom names \<Longrightarrow>
   person_found_loop names boxes found
     = Inr (found \<or> (\<exists>b \<in> set boxes. names (cls b) = Some ''person''))"
  by (induction boxes arbitrary: found) (auto split: option.splits)

lemma person_found_loop_conf:
  "person_found_loop names (map (conf_update f) boxes) found
     = person_found_loop names boxes found"
  by (induction boxes arbitrary: found) (simp_all split: option.splits)

text \<open>
  Claim C5, as stated: with a minimum confidence of \<open>0.5\<close>, a frame whose only detection is
  a person of confidence \<open>0.1\<close> has no detection that meets the threshold, yet the loop of
  lines 103-115 sets \<open>person_found\<close>.
\<close>

theorem classify_threshold_counterexample:
  "person_found_of [0 \<mapsto> ''person'', 2 \<mapsto> ''car'']
       [\<lparr>xyxy = (0, 0, 1, 1), conf = 1 / 10, cls = 0\<rparr>] = Inr True
   \<and> \<not> classify_spec [0 \<mapsto> ''person'', 2 \<mapsto> ''car'']
           [\<lparr>xyxy = (0, 0, 1, 1), conf = 1 / 10, cls = 0\<rparr>] ''person'' (1 / 2)"
  by (simp add: person_found_of_def classify_spec_def)

text \<open>
  Claim C5, amended. The classification is a pure function of the frame's detections
  (and of the table of labels): when every class index has a label, it returns true if
  and only if at least one detection has the label \<open>person\<close>; the confidences do not
  influence it, and no threshold is applied to them.
\<close>

theorem person_found_iff_person_label:
  assumes "\<forall>b \<in> set boxes. cls b \<in> dom names"
  shows "person_found_of names boxes
           = Inr (\<exists>b \<in> set boxes. names (cls b) = Some ''person'')
       \<and> person_found_of names (map (conf_update f) boxes) = person_found_of names boxes"
  using assms by (simp add: person_found_of_def person_found_loop_eq person_found_loop_conf)

theorem person_found_iff_person_label_witness:
  "cls \<lparr>xyxy = (0, 0, 1, 1), conf = 1 / 10, cls = 2\<rparr> \<in> dom [0 \<mapsto> ''person'', 2 \<mapsto> ''car'']
   \<and> cls \<lparr>xyxy = (5, 5, 9, 9), conf = 1 / 10, cls = 0\<rparr> \<in> dom [0 \<mapsto> ''person'', 2 \<mapsto> ''car'']
   \<and> person_found_of [0 \<mapsto> ''person'', 2 \<mapsto> ''car'']
       [\<lparr>xyxy = (0, 0, 1, 1), conf = 1 / 10, cls = 2\<rparr>,
        \<lparr>xyxy = (5, 5, 9, 9), conf = 1 / 10, cls = 0\<rparr>] = Inr True"
proof -
  have h: "\<forall>b \<in> set [\<lparr>xyxy = (0, 0, 1, 1), conf = 1 / 10, cls = 2\<rparr>,
                \<lparr>xyxy = (5, 5, 9, 9), conf = 1 / 10, cls = 0\<rparr>].
       cls b \<in> dom [0 \<mapsto> ''person'', (2::int) \<mapsto> ''car'']"
    by simp
  show ?thesis
    using h person_found_iff_person_label [OF h, of id] by simp
qed

section \<open>Properties of the camera enumeration\<close>

lemma small_cases:
  "(d::nat) < 10 \<Longrightarrow> d = 0 \<or> d = 1 \<or> d = 2 \<or> d = 3 \<or> d = 4 \<or> d = 5 \<or> d = 6 \<or> d = 7 \<or> d = 8 \<or> d = 9"
  by presburger

lemma digit_of_digit_char:
  assumes "d < 10"
  shows "digit_of_char (digit_char d) = Some d"
  using small_cases [OF assms]
  by (elim disjE) (simp_all add: digit_of_char_def digit_char_def)

lemma int_digits_snoc:
  "int_digits (cs @ [c]) acc =
     (case int_digits cs acc of
        None \<Rightarrow> None
      | Some m \<Rightarrow> (case digit_of_char c of None \<Rightarrow> None | Some d \<Rightarrow> Some (10 * m + d)))"
  by (induction cs arbitrary: acc) (simp_all split: option.splits)

lemma str_not_Nil: "str n \<noteq> []"
  by (subst str.simps) simp

lemma int_digits_str: "int_digits (str n) 0 = Some n"
proof (induction n rule: str.induct)
  case (1 n)
  show ?case
  proof (cases "n < 10")
    case True
    then show ?thesis
      by (subst str.simps) (simp add: digit_of_digit_char)
  next
    case False
    have "n mod 10 < 10" by simp
    with False "1.IH" show ?thesis
      by (subst str.simps) (simp add: int_digits_snoc digit_of_digit_char)
  qed
qed

lemma int_py_str: "int_py (str n) = Inr (int n)"
  by (simp add: int_py_def str_not_Nil int_digits_str)


lemma detect_loop_eq:
  "detect_loop isOpened indices available_cameras
     = available_cameras @ map str (filter isOpened indices)"
  by (induction indices arbitrary: available_cameras) simp_all

lemma detect_available_cameras_eq:
  "detect_available_cameras isOpened max_cameras
     = map str (filter isOpened [0..<nat max_cameras])"
  by (simp add: detect_available_cameras_def range_py_def detect_loop_eq)

text \<open>
  Claim C6. For every \<open>max_cameras\<close> the enumeration returns the indices below
  \<open>max_cameras\<close> whose probe opened, in increasing order, each as its decimal string, and
  leaves out every index whose probe did not open; reading the strings back gives exactly
  those indices. It has no failing outcome, and for \<open>max_cameras = 0\<close> the result is empty.
\<close>

theorem enumeration_is_open_indices_in_order:
  "detect_available_cameras isOpened max_cameras
     = map str (filter isOpened [0..<nat max_cameras])
   \<and> map int_py (detect_available_cameras isOpened max_cameras)
       = map (\<lambda>i. Inr (int i)) (filter isOpened [0..<nat max_cameras])
   \<and> detect_available_cameras isOpened 0 = []"
  by (simp add: detect_available_cameras_eq int_py_str)

lemma option_menu_Nil: "option_menu entries [] default_value = default_value"
  by (simp add: option_menu_def)

lemma option_menu_snoc:
  "option_menu entries (clicks @ [k]) default_value
     = (if k < length entries then entries ! k
        else option_menu entries clicks default_value)"
  by (simp add: option_menu_def)

text \<open>
  Claim C10. Every element of the enumeration's result is the decimal string of its
  device index, which \<open>int\<close> reads back as that index. \<open>get_camera_selection\<close> converts the
  selected entry and nothing else: it returns \<open>None\<close> when no device opened; when the
  operator chose nothing it returns the first opened index; and when the operator's last
  choice was entry \<open>k\<close> of the menu it returns the \<open>k\<close>-th opened index.
\<close>

theorem enumeration_yields_decimal_strings:
  "list_all2 (\<lambda>s i. s = str i \<and> int_py s = Inr (int i))
     (detect_available_cameras isOpened max_cameras) (filter isOpened [0..<nat max_cameras])
   \<and> get_camera_selection isOpened []
       = (case filter isOpened [0..<5] of
            [] \<Rightarrow> Inr None
          | first # others \<Rightarrow> Inr (Some (int first)))
   \<and> get_camera_selection isOpened (clicks @ [k])
       = (if k < length (filter isOpened [0..<5])
          then Inr (Some (int (filter isOpened [0..<5] ! k)))
          else get_camera_selection isOpened clicks)"
proof (intro conjI)
  show "list_all2 (\<lambda>s i. s = str i \<and> int_py s = Inr (int i))
     (detect_available_cameras isOpened max_cameras) (filter isOpened [0..<nat max_cameras])"
    by (simp add: detect_available_cameras_eq list_all2_map1 list_all2_same int_py_str)
next
  show "get_camera_selection isOpened []
       = (case filter isOpened [0..<5] of
            [] \<Rightarrow> Inr None
          | first # others \<Rightarrow> Inr (Some (int first)))"
    by (simp add: get_camera_selection_def detect_available_cameras_eq option_menu_Nil
        int_py_str split: list.splits)
next
  show "get_camera_selection isOpened (clicks @ [k])
       = (if k < length (filter isOpened [0..<5])
          then Inr (Some (int (filter isOpened [0..<5] ! k)))
          else get_camera_selection isOpened clicks)"
  proof (cases "filter isOpened [0..<5]")
    case Nil
    then show ?thesis
      by (simp add: get_camera_selection_def detect_available_cameras_eq)
  next
    case (Cons first others)
    have entries: "detect_available_cameras isOpened 5 = str first # map str others"
      by (simp add: detect_available_cameras_eq Cons)
    show ?thesis
    proof (cases "k < length (first # others)")
      case True
      then have "(str first # map str others) ! k = str ((first # others) ! k)"
        using nth_map [of k "first # others" str] by simp
      with True show ?thesis
        by (simp add: get_camera_selection_def entries Cons option_menu_snoc int_py_str)
    next
      case False
      then show ?thesis
        by (simp add: get_camera_selection_def entries Cons option_menu_snoc)
    qed
  qed
qed

text \<open>With devices 1 and 3 open, choosing the second entry of the menu selects device 3.\<close>

lemma get_camera_selection_second_entry:
  "get_camera_selection (\<lambda>i. i = 1 \<or> i = 3) [1] = Inr (Some 3)
   \<and> get_camera_selection (\<lambda>i. i = 1 \<or> i = 3) [] = Inr (Some 1)"
  by (simp add: get_camera_selection_def detect_available_cameras_def range_py_def upt_rec
      option_menu_def str.simps digit_char_def int_py_def digit_of_char_def)

section \<open>Properties of the notification\<close>


lemmas send_email_unfold =
  send_email_def try_block_def then_do_def call_def build_message_def print_line_def






text \<open>
  A message that cannot be built is caught as well: three calls are made and the failure
  line is printed although no call raised. An exception outside \<open>Exception\<close> is not caught.
\<close>

lemma send_email_message_not_built:
  "send_email \<lparr>transport = (\<lambda>c. Returns), as_string = plain_message,
               stdout_write = utf8_stdout\<rparr> ''a@x.com'' ''pw'' (''b@x.com'' @ [CHR 0x0A] @ ''Bcc: z@x.com'')
     = (Inr (), \<lparr>calls = [SMTP ''smtp.gmail.com'' 587, Starttls, Login ''a@x.com'' ''pw''],
                 printed = [failure_line ''HeaderParseError'']\<rparr>)"
  by (simp add: send_email_unfold plain_message_def utf8_stdout_def)

lemma send_email_lets_others_through:
  "fst (send_email \<lparr>transport = (\<lambda>c. Raises KeyboardInterrupt), as_string = plain_message,
                    stdout_write = utf8_stdout\<rparr> ''a@x.com'' ''pw'' ''b@x.com'')
     = Inl KeyboardInterrupt"
  by (simp add: send_email_unfold)

end
